theory Spec2Isabelle
  imports Main
begin

section \<open>Characters and strings\<close>

text \<open>
  A Python \<open>str\<close> is modelled as a \<open>string\<close>; a \<open>char\<close> stands for a code point
  below 256.  \<open>newline\<close> is Python's \<open>"\n"\<close>.
\<close>

definition newline :: char where
  "newline = CHR 0x0A"

definition space :: char where
  "space = CHR '' ''"

text \<open>
  \<open>string.printable\<close>: digits, ASCII letters, punctuation and the whitespace
  characters space, tab, newline, return, vertical tab and form feed, that is the code
  points 9 to 13 and 32 to 126.
\<close>

definition printable :: "char \<Rightarrow> bool" where
  "printable c = (let n = (of_char c :: nat) in (9 \<le> n \<and> n \<le> 13) \<or> (32 \<le> n \<and> n \<le> 126))"

text \<open>
  \<open>str.isspace\<close> on a single code point below 256, which is what \<open>str.split()\<close>
  without an argument separates on.
\<close>

definition is_space :: "char \<Rightarrow> bool" where
  "is_space c = (let n = (of_char c :: nat) in
     (9 \<le> n \<and> n \<le> 13) \<or> (28 \<le> n \<and> n \<le> 32) \<or> n = 133 \<or> n = 160)"

text \<open>\<open>str.lower\<close> on one code point below 256.\<close>

definition lower_char :: "char \<Rightarrow> char" where
  "lower_char c = (let n = (of_char c :: nat) in
     if (65 \<le> n \<and> n \<le> 90) \<or> (192 \<le> n \<and> n \<le> 222 \<and> n \<noteq> 215)
     then char_of (n + 32) else c)"

definition lower :: "string \<Rightarrow> string" where
  "lower s = map lower_char s"

text \<open>\<open>s.replace(old, "")\<close> for a one-character \<open>old\<close>: every occurrence is removed.\<close>

definition remove_char :: "char \<Rightarrow> string \<Rightarrow> string" where
  "remove_char c s = filter (\<lambda>x. x \<noteq> c) s"

text \<open>
  \<open>s.split()\<close>: the maximal runs of characters that are not whitespace, in order;
  no empty string is produced.  \<open>split_acc cur s\<close> scans \<open>s\<close> with the run \<open>cur\<close>
  read so far.
\<close>

fun split_acc :: "string \<Rightarrow> string \<Rightarrow> string list" where
  "split_acc cur [] = (if cur = [] then [] else [cur])"
| "split_acc cur (c # cs) =
     (if is_space c then (if cur = [] then split_acc [] cs else cur # split_acc [] cs)
      else split_acc (cur @ [c]) cs)"

definition str_split :: "string \<Rightarrow> string list" where
  "str_split s = split_acc [] s"

text \<open>\<open>sep.join(xs)\<close>.\<close>

fun join :: "string \<Rightarrow> string list \<Rightarrow> string" where
  "join sep [] = []"
| "join sep [x] = x"
| "join sep (x # y # ys) = x @ sep @ join sep (y # ys)"

section \<open>clean_text\<close>

text \<open>
  \<open>re.sub(c + "+", c, s)\<close> for a literal character \<open>c\<close>: scanning from the left, every
  maximal run of \<open>c\<close> is replaced by a single \<open>c\<close>.
\<close>

function sub_runs :: "char \<Rightarrow> string \<Rightarrow> string" where
  "sub_runs c [] = []"
| "sub_runs c (x # xs) =
     (if x = c then c # sub_runs c (dropWhile (\<lambda>y. y = c) xs) else x # sub_runs c xs)"
  by pat_completeness auto
termination
  by (relation "measure (\<lambda>(c, s). length s)") (auto simp: le_imp_less_Suc length_dropWhile_le)

definition clean_text :: "string \<Rightarrow> string" where
  "clean_text text =
     (let only_ascii = map (\<lambda>ch. if printable ch then ch else space) text;
          no_dup_spaces = sub_runs space only_ascii;
          no_dup_newlines = sub_runs newline no_dup_spaces
      in no_dup_newlines)"

text \<open>A run of two or more adjacent occurrences of \<open>c\<close>.\<close>

fun has_run :: "char \<Rightarrow> string \<Rightarrow> bool" where
  "has_run c (x # y # zs) = ((x = c \<and> y = c) \<or> has_run c (y # zs))"
| "has_run c _ = False"

section \<open>The template matcher\<close>

text \<open>
  The wildcard marker of a template, as the templates of \<open>pa_list\<close> write it.
\<close>

definition wildcard :: string where
  "wildcard = ''%''"

text \<open>
  Modelled from the spec: the order in which the matcher tries its candidates (section 4.1,
  "first success taken"): the first candidate, in list order, on which \<open>f\<close> succeeds.
\<close>

fun first_some :: "('a \<Rightarrow> 'b option) \<Rightarrow> 'a list \<Rightarrow> 'b option" where
  "first_some f [] = None"
| "first_some f (x # xs) = (case f x of Some y \<Rightarrow> Some y | None \<Rightarrow> first_some f xs)"

text \<open>
  Modelled from the spec: the function \<open>match\<close> of the module \<open>match\<close>, which
  \<open>a10.py\<close> imports and which is not among the sources.  The definition follows
  section 4.1 of the specification: an empty template matches the empty query only; a
  wildcard that ends the template binds the whole remaining query; a wildcard followed by
  further entries tries the prefixes of length 1, 2, ... of the remaining query and takes
  the first after which the rest of the template matches; a literal must equal the next
  token up to case.  The result is \<open>None\<close> for "no match" and \<open>Some binding\<close>
  otherwise; with several wildcards the tokens they bind are returned in order.
\<close>

fun match :: "string list \<Rightarrow> string list \<Rightarrow> string list option" where
  "match [] query = (if query = [] then Some [] else None)"
| "match (e # template) query =
     (if e = wildcard then
        (if template = [] then Some query
         else first_some
                (\<lambda>n. case match template (drop n query) of
                        None \<Rightarrow> None
                      | Some binding \<Rightarrow> Some (take n query @ binding))
                [1 ..< Suc (length query)])
      else (case query of
              [] \<Rightarrow> None
            | tok # rest \<Rightarrow> if lower tok = lower e then match template rest else None))"

section \<open>Exceptions and the outside world\<close>

text \<open>
  The exceptions the program raises itself, and \<open>LibraryError\<close> for an exception
  raised inside a call of the \<open>wikipedia\<close> library (its message as argument).
\<close>

datatype exn =
    KeyboardInterrupt
  | EOFError
  | IndexError
  | LookupError string
  | AttributeError string
  | ValueError string
  | LibraryError string

text \<open>
  A request sent to Wikipedia: \<open>wikipedia.search(title)\<close> and
  \<open>WikipediaPage(title).html()\<close>.  The requests made so far are the state that the
  retrieval functions thread.
\<close>

datatype request = Search string | Html string

text \<open>A regex match object, read through \<open>group(name)\<close> and \<open>group(index)\<close>.\<close>

datatype group_key = Name string | Index nat

type_synonym re_match = "group_key \<Rightarrow> string"

text \<open>
  The libraries the program calls: the answers of Wikipedia (\<open>Inl\<close> the message of the
  exception the library raises), the texts of the elements of class \<open>infobox\<close> that
  BeautifulSoup finds in a page, and \<open>re.compile(pattern, re.DOTALL | re.IGNORECASE).search(text)\<close>.
\<close>

record world =
  wikipedia_search :: "string \<Rightarrow> string + string list"
  page_html :: "string \<Rightarrow> string + string"
  find_infobox :: "string \<Rightarrow> string list"
  re_search :: "string \<Rightarrow> string \<Rightarrow> re_match option"

type_synonym 'a run = "request list \<Rightarrow> (exn + 'a) \<times> request list"

definition ret :: "'a \<Rightarrow> 'a run" where
  "ret x = (\<lambda>reqs. (Inr x, reqs))"

definition raise :: "exn \<Rightarrow> 'a run" where
  "raise e = (\<lambda>reqs. (Inl e, reqs))"

definition bind :: "'a run \<Rightarrow> ('a \<Rightarrow> 'b run) \<Rightarrow> 'b run" where
  "bind m f = (\<lambda>reqs. case m reqs of
                         (Inl e, reqs') \<Rightarrow> (Inl e, reqs')
                       | (Inr x, reqs') \<Rightarrow> f x reqs')"

text \<open>A library call that sends the request \<open>r\<close> and answers \<open>a\<close>.\<close>

definition request :: "request \<Rightarrow> string + 'a \<Rightarrow> 'a run" where
  "request r a = (\<lambda>reqs. (case a of Inl msg \<Rightarrow> Inl (LibraryError msg) | Inr x \<Rightarrow> Inr x,
                            reqs @ [r]))"

section \<open>Fact retrieval\<close>

definition get_page_html :: "world \<Rightarrow> string \<Rightarrow> string run" where
  "get_page_html w title =
     bind (request (Search title) (wikipedia_search w title)) (\<lambda>results.
       case results of
         [] \<Rightarrow> raise IndexError
       | r0 # _ \<Rightarrow> request (Html r0) (page_html w r0))"

definition get_first_infobox_text :: "world \<Rightarrow> string \<Rightarrow> string run" where
  "get_first_infobox_text w html =
     (case find_infobox w html of
        [] \<Rightarrow> raise (LookupError ''Page has no infobox'')
      | r0 # _ \<Rightarrow> ret r0)"

definition get_match :: "world \<Rightarrow> string \<Rightarrow> string \<Rightarrow> string \<Rightarrow> re_match run" where
  "get_match w text pattern error_text =
     (case re_search w pattern text of
        None \<Rightarrow> raise (AttributeError error_text)
      | Some m \<Rightarrow> ret m)"

text \<open>\<open>clean_text(get_first_infobox_text(get_page_html(name)))\<close>.\<close>

definition infobox_text :: "world \<Rightarrow> string \<Rightarrow> string run" where
  "infobox_text w name =
     bind (get_page_html w name) (\<lambda>html.
     bind (get_first_infobox_text w html) (\<lambda>t. ret (clean_text t)))"

definition bs :: string where
  "bs = [CHR 0x5C]"

definition polar_radius_pattern :: string where
  "polar_radius_pattern =
     ''(?:Polar radius.*?)(?: ?['' @ bs @ ''d]+ )?(?P<radius>['' @ bs @ ''d,.]+)(?:.*?)km''"

definition birth_pattern :: string where
  "birth_pattern =
     ''(?:Born'' @ bs @ ''D*)(?P<birth>'' @ bs @ ''d{4}-'' @ bs @ ''d{2}-'' @ bs @ ''d{2})''"

definition pop_class :: string where
  "pop_class = ''[a-zA-Z!@#$%^&*() ['' @ bs @ '']]''"

definition pop_pattern :: string where
  "pop_pattern =
     ''Population '' @ pop_class @ ''+'' @ bs @ ''d{4}'' @ pop_class @ ''+'' @ bs @ ''d{0,2}''
       @ pop_class @ ''+?([0-9,]+)''"

definition coords_pattern :: string where
  "coords_pattern =
     ''Coordinates: ?('' @ bs @ ''d+'' @ bs @ ''s'' @ bs @ ''d+'' @ bs @ ''s+'' @ bs @ ''d+''
       @ bs @ ''s'' @ bs @ ''w'' @ bs @ ''s'' @ bs @ ''d+'' @ bs @ ''s'' @ bs @ ''d+'' @ bs @ ''s''
       @ bs @ ''d+'' @ bs @ ''s+'' @ bs @ ''w)''"

definition country_pattern :: string where
  "country_pattern = ''Country'' @ bs @ ''s*([A-Z][a-z]*(?: [A-Z][a-z]*)?)''"

definition get_polar_radius :: "world \<Rightarrow> string \<Rightarrow> string run" where
  "get_polar_radius w planet_name =
     bind (infobox_text w planet_name) (\<lambda>text.
     bind (get_match w text polar_radius_pattern
             ''Page infobox has no polar radius information'') (\<lambda>m.
     ret (m (Name ''radius''))))"

definition get_birth_date :: "world \<Rightarrow> string \<Rightarrow> string run" where
  "get_birth_date w name =
     bind (infobox_text w name) (\<lambda>text.
     bind (get_match w text birth_pattern
             ''Page infobox has no birth information (at least none in xxxx-xx-xx format)'')
       (\<lambda>m.
     ret (m (Name ''birth''))))"

definition get_city_pop :: "world \<Rightarrow> string \<Rightarrow> string run" where
  "get_city_pop w name =
     (if name = [] then raise (ValueError ''City name must be provided'')
      else
        bind (infobox_text w name) (\<lambda>text.
        bind (get_match w text pop_pattern ''Page infobox has no population information'')
          (\<lambda>m.
        ret (m (Index 1)))))"

definition get_city_coords :: "world \<Rightarrow> string \<Rightarrow> string run" where
  "get_city_coords w name =
     (if name = [] then raise (ValueError ''City name must be provided'')
      else
        bind (infobox_text w name) (\<lambda>text.
        bind (get_match w text coords_pattern ''Page infobox has no coordinates information'')
          (\<lambda>m.
        ret (m (Index 1)))))"

definition get_city_country :: "world \<Rightarrow> string \<Rightarrow> string run" where
  "get_city_country w name =
     (if name = [] then raise (ValueError ''City name must be provided'')
      else
        bind (infobox_text w name) (\<lambda>text.
        bind (get_match w text country_pattern ''Page infobox has no country information'')
          (\<lambda>m.
        ret (m (Index 1)))))"

section \<open>Actions\<close>

type_synonym action = "string list \<Rightarrow> string list run"

definition birth_date :: "world \<Rightarrow> action" where
  "birth_date w matches = bind (get_birth_date w (join '' '' matches)) (\<lambda>r. ret [r])"

definition polar_radius :: "world \<Rightarrow> action" where
  "polar_radius w matches =
     (case matches of
        [] \<Rightarrow> raise IndexError
      | m0 # _ \<Rightarrow> bind (get_polar_radius w m0) (\<lambda>r. ret [r]))"

definition city_pop :: "world \<Rightarrow> action" where
  "city_pop w matches =
     (case matches of
        [] \<Rightarrow> ret [''No city specified'']
      | m0 # _ \<Rightarrow>
          if m0 = [] then ret [''No city specified'']
          else bind (get_city_pop w m0) (\<lambda>r. ret [r]))"

definition city_coords :: "world \<Rightarrow> action" where
  "city_coords w matches =
     (case matches of
        [] \<Rightarrow> ret [''No city specified'']
      | m0 # _ \<Rightarrow>
          if m0 = [] then ret [''No city specified'']
          else bind (get_city_coords w m0) (\<lambda>r. ret [r]))"

definition city_country :: "world \<Rightarrow> action" where
  "city_country w matches =
     (case matches of
        [] \<Rightarrow> ret [''No city specified'']
      | m0 # _ \<Rightarrow>
          if m0 = [] then ret [''No city specified'']
          else bind (get_city_country w m0) (\<lambda>r. ret [r]))"

definition bye_action :: action where
  "bye_action dummy = raise KeyboardInterrupt"

section \<open>The pattern-action list and the dispatcher\<close>

definition pa_list :: "world \<Rightarrow> (string list \<times> action) list" where
  "pa_list w =
     [(str_split ''when was % born'', birth_date w),
      (str_split ''what is the polar radius of %'', polar_radius w),
      (str_split ''what is the population of %'', city_pop w),
      (str_split ''what are the coordinates of %'', city_coords w),
      (str_split ''what country is % in'', city_country w),
      ([''bye''], bye_action)]"

text \<open>
  The loop of \<open>search_pa_list\<close> over a pattern-action list \<open>pal\<close>, with the matcher
  \<open>mtch\<close> it calls.
\<close>

fun search_loop ::
  "(string list \<Rightarrow> string list \<Rightarrow> string list option) \<Rightarrow> (string list \<times> action) list
     \<Rightarrow> string list \<Rightarrow> string list run" where
  "search_loop mtch [] src = ret [''I don't understand'']"
| "search_loop mtch ((pat, act) # pal) src =
     (case mtch pat src of
        Some mat \<Rightarrow> bind (act mat) (\<lambda>answer. ret (if answer \<noteq> [] then answer else [''No answers'']))
      | None \<Rightarrow> search_loop mtch pal src)"

definition search_pa_list :: "world \<Rightarrow> string list \<Rightarrow> string list run" where
  "search_pa_list w src = search_loop match (pa_list w) src"

section \<open>The query loop\<close>

text \<open>
  What the program writes: \<open>Print s\<close> is \<open>print(s)\<close> (the text and a newline),
  \<open>Prompt s\<close> the prompt that \<open>input(s)\<close> writes.
\<close>

datatype out = Print string | Prompt string

text \<open>
  The state of the process: the lines of standard input not read yet (\<open>input\<close> raises
  \<open>EOFError\<close> when there is none), what was written, and the requests made.
\<close>

record state =
  stdin :: "string list"
  stdout :: "out list"
  requests :: "request list"

text \<open>The expression \<open>line.replace("?", "").lower().split()\<close> of the loop.\<close>

definition query_tokens :: "string \<Rightarrow> string list" where
  "query_tokens line = str_split (lower (remove_char (CHR ''?'') line))"

text \<open>
  The \<open>while True\<close> loop, on the lines still to read.  The result is \<open>Inr ()\<close> when
  the loop is left by \<open>break\<close>, and \<open>Inl e\<close> when the exception \<open>e\<close> leaves it.
\<close>

fun loop :: "world \<Rightarrow> string list \<Rightarrow> out list \<Rightarrow> request list \<Rightarrow> (exn + unit) \<times> state" where
  "loop w [] out reqs =
     (Inr (), \<lparr>stdin = [], stdout = out @ [Print [], Prompt ''Your query? ''], requests = reqs\<rparr>)"
| "loop w (line # rest) out reqs =
     (let out1 = out @ [Print [], Prompt ''Your query? ''];
          query = query_tokens line
      in case search_pa_list w query reqs of
           (Inl e, reqs1) \<Rightarrow>
             (if e = KeyboardInterrupt \<or> e = EOFError then Inr () else Inl e,
              \<lparr>stdin = rest, stdout = out1, requests = reqs1\<rparr>)
         | (Inr answers, reqs1) \<Rightarrow> loop w rest (out1 @ map Print answers) reqs1)"

text \<open>
  \<open>query_loop()\<close>, the last statement of the module: when it returns the process exits
  with success, and an exception that leaves it ends the process with a traceback.
\<close>

definition query_loop :: "world \<Rightarrow> string list \<Rightarrow> (exn + unit) \<times> state" where
  "query_loop w lines =
     (case loop w lines [Print (''Welcome to the information database!'' @ [newline])] [] of
        (Inl e, st) \<Rightarrow> (Inl e, st)
      | (Inr u, st) \<Rightarrow>
          (Inr (), st\<lparr>stdout := stdout st @ [Print ([newline] @ ''So long!'' @ [newline])]\<rparr>))"

text \<open>
  The tokenization as the specification words it: a trailing question mark is stripped,
  the line is lowercased and split on whitespace.
\<close>

definition strip_trailing_qmark :: "string \<Rightarrow> string" where
  "strip_trailing_qmark line =
     (if line \<noteq> [] \<and> last line = CHR ''?'' then butlast line else line)"

definition spec_tokens :: "string \<Rightarrow> string list" where
  "spec_tokens line = str_split (lower (strip_trailing_qmark line))"

section \<open>Example inputs\<close>

text \<open>
  A world in which Wikipedia answers every search with the page \<open>Paris\<close>, whose page source
  has no infobox; a world in which it answers with the page \<open>Lyon\<close>, which has an infobox
  in which no pattern is found; and two actions for test pattern-action lists: \<open>echo\<close>
  answers with its binding, \<open>silent\<close> with the empty list.
\<close>

definition world_no_infobox :: world where
  "world_no_infobox =
     \<lparr>wikipedia_search = (\<lambda>title. Inr [''Paris'']),
      page_html = (\<lambda>title. Inr ''<html></html>''),
      find_infobox = (\<lambda>html. []),
      re_search = (\<lambda>pattern text. None)\<rparr>"


definition echo :: action where
  "echo matches = ret matches"

definition silent :: action where
  "silent matches = ret []"

section \<open>Properties of clean_text\<close>

lemma sub_runs_Nil_iff: "sub_runs c s = [] \<longleftrightarrow> s = []"
  by (cases s) auto

lemma hd_sub_runs: "hd (sub_runs c s) = hd s"
  by (cases s) auto

lemma has_run_Cons:
  "has_run c (x # xs) = ((x = c \<and> xs \<noteq> [] \<and> hd xs = c) \<or> has_run c xs)"
  by (cases xs) auto

lemma hd_dropWhile_not: "dropWhile P xs \<noteq> [] \<Longrightarrow> \<not> P (hd (dropWhile P xs))"
  by (metis hd_dropWhile)

lemma sub_runs_no_run: "\<not> has_run c (sub_runs c s)"
proof (induction c s rule: sub_runs.induct)
  case (1 c)
  show ?case by simp
next
  case (2 c x xs)
  show ?case
  proof (cases "x = c")
    case True
    define r where "r = dropWhile (\<lambda>y. y = c) xs"
    have h: "r = [] \<or> hd r \<noteq> c"
      unfolding r_def using hd_dropWhile_not [of "\<lambda>y. y = c" xs] by blast
    from 2(1) True have "\<not> has_run c (sub_runs c r)" by (simp add: r_def)
    with h have "\<not> has_run c (c # sub_runs c r)"
      by (auto simp: has_run_Cons sub_runs_Nil_iff hd_sub_runs)
    with True show ?thesis by (simp add: r_def)
  next
    case False
    with 2 show ?thesis by (simp add: has_run_Cons)
  qed
qed

lemma sub_runs_id: "\<not> has_run c s \<Longrightarrow> sub_runs c s = s"
proof (induction c s rule: sub_runs.induct)
  case (1 c)
  show ?case by simp
next
  case (2 c x xs)
  show ?case
  proof (cases "x = c")
    case True
    from 2(3) True have nr: "\<not> has_run c xs" and h: "xs = [] \<or> hd xs \<noteq> c"
      by (auto simp: has_run_Cons)
    from h have "dropWhile (\<lambda>y. y = c) xs = xs" by (cases xs) auto
    with 2(1) True nr show ?thesis by simp
  next
    case False
    with 2 show ?thesis by (simp add: has_run_Cons)
  qed
qed

lemma has_run_dropWhile: "\<not> has_run d s \<Longrightarrow> \<not> has_run d (dropWhile P s)"
  by (induction s) (auto simp: has_run_Cons)

lemma sub_runs_keeps_no_run:
  "c \<noteq> d \<Longrightarrow> \<not> has_run d s \<Longrightarrow> \<not> has_run d (sub_runs c s)"
proof (induction c s rule: sub_runs.induct)
  case (1 c)
  show ?case by simp
next
  case (2 c x xs)
  from 2(4) have nr: "\<not> has_run d xs" by (simp add: has_run_Cons)
  show ?case
  proof (cases "x = c")
    case True
    with 2 nr show ?thesis
      by (simp add: has_run_Cons has_run_dropWhile)
  next
    case False
    with 2 nr show ?thesis
      by (simp add: has_run_Cons sub_runs_Nil_iff hd_sub_runs)
  qed
qed

lemma set_sub_runs: "set (sub_runs c s) \<subseteq> set s"
proof (induction c s rule: sub_runs.induct)
  case (1 c)
  show ?case by simp
next
  case (2 c x xs)
  have "set (dropWhile (\<lambda>y. y = c) xs) \<subseteq> set xs" by (simp add: set_dropWhileD subsetI)
  with 2 show ?case by auto
qed

lemma printable_space: "printable space"
  by (simp add: printable_def space_def)

lemma space_neq_newline: "space \<noteq> newline"
  by (simp add: space_def newline_def)

text \<open>
  Claim C9.  \<open>clean_text\<close> is idempotent: cleaning a cleaned text changes nothing,
  because one pass leaves only printable characters, no run of two or more spaces and no
  run of two or more newlines.
\<close>

theorem clean_text_idempotent:
  "clean_text (clean_text s) = clean_text s \<and> list_all printable (clean_text s)
   \<and> \<not> has_run space (clean_text s) \<and> \<not> has_run newline (clean_text s)"
proof -
  define a where "a = map (\<lambda>ch. if printable ch then ch else space) s"
  define b where "b = sub_runs space a"
  define r where "r = sub_runs newline b"
  have r: "clean_text s = r" by (simp add: clean_text_def a_def b_def r_def)
  have "list_all printable a" by (auto simp: a_def list_all_iff printable_space)
  then have pr: "list_all printable r"
    using set_sub_runs [of space a] set_sub_runs [of newline b]
    unfolding list_all_iff b_def r_def by blast
  have nsp: "\<not> has_run space r"
    unfolding r_def b_def using space_neq_newline
    by (intro sub_runs_keeps_no_run sub_runs_no_run) auto
  have nnl: "\<not> has_run newline r" unfolding r_def by (rule sub_runs_no_run)
  have m: "map (\<lambda>ch. if printable ch then ch else space) r = r"
    using pr by (simp add: list_all_iff map_idI)
  have "clean_text r = r"
    by (simp add: clean_text_def m sub_runs_id nsp nnl)
  with r pr nsp nnl show ?thesis by simp
qed

section \<open>Properties of the matcher\<close>

lemma first_some_Some_iff:
  "first_some f xs = Some y \<longleftrightarrow>
     (\<exists>i < length xs. f (xs ! i) = Some y \<and> (\<forall>j < i. f (xs ! j) = None))"
proof (induction xs)
  case Nil
  show ?case by simp
next
  case (Cons x xs)
  show ?case
  proof (cases "f x")
    case None
    have "(\<exists>i < length (x # xs). f ((x # xs) ! i) = Some y \<and> (\<forall>j < i. f ((x # xs) ! j) = None))
          \<longleftrightarrow> (\<exists>i < length xs. f (xs ! i) = Some y \<and> (\<forall>j < i. f (xs ! j) = None))"
      (is "?L \<longleftrightarrow> ?R")
    proof
      assume ?L
      then obtain i where i: "i < length (x # xs)" "f ((x # xs) ! i) = Some y"
        "\<forall>j < i. f ((x # xs) ! j) = None" by blast
      from i(2) None obtain k where k: "i = Suc k" by (cases i) auto
      from i(3) k have "\<forall>j < k. f (xs ! j) = None" by force
      with i k show ?R by auto
    next
      assume ?R
      then obtain i where i: "i < length xs" "f (xs ! i) = Some y"
        "\<forall>j < i. f (xs ! j) = None" by blast
      have "\<forall>j < Suc i. f ((x # xs) ! j) = None"
        using i(3) None by (auto simp: nth_Cons split: nat.splits)
      with i show ?L by (intro exI [of _ "Suc i"]) simp
    qed
    with None Cons show ?thesis by simp
  next
    case (Some z)
    have "(\<exists>i < length (x # xs). f ((x # xs) ! i) = Some y \<and> (\<forall>j < i. f ((x # xs) ! j) = None))
          \<longleftrightarrow> z = y" (is "?L \<longleftrightarrow> _")
    proof
      assume ?L
      then obtain i where i: "f ((x # xs) ! i) = Some y"
        "\<forall>j < i. f ((x # xs) ! j) = None" by blast
      have "i = 0"
      proof (rule ccontr)
        assume "i \<noteq> 0"
        with i(2) have "f ((x # xs) ! 0) = None" by blast
        with Some show False by simp
      qed
      with i Some show "z = y" by simp
    next
      assume "z = y"
      with Some show ?L by (intro exI [of _ 0]) simp
    qed
    with Some show ?thesis by simp
  qed
qed

text \<open>
  Claim C1.  When the wildcard marker is followed by further entries, the match succeeds
  with binding \<open>b\<close> exactly when there is a prefix length \<open>n\<close>, at least 1 and at
  most the length of the query, such that the rest of the template matches the query
  without its first \<open>n\<close> tokens, no shorter non-empty prefix does, and \<open>b\<close> is
  that prefix followed by what the rest of the template binds.  So the wildcard binds the
  shortest non-empty prefix that lets the rest match, and never zero tokens.
\<close>

theorem match_wildcard_shortest:
  assumes "rest \<noteq> []"
  shows "match (wildcard # rest) query = Some b \<longleftrightarrow>
           (\<exists>n b'. 1 \<le> n \<and> n \<le> length query
                   \<and> match rest (drop n query) = Some b'
                   \<and> b = take n query @ b'
                   \<and> (\<forall>k. 1 \<le> k \<and> k < n \<longrightarrow> match rest (drop k query) = None))"
    (is "?L \<longleftrightarrow> ?R")
proof -
  define f where "f = (\<lambda>n. case match rest (drop n query) of
                        None \<Rightarrow> None
                      | Some binding \<Rightarrow> Some (take n query @ binding))"
  have m: "match (wildcard # rest) query = first_some f [1 ..< Suc (length query)]"
    using assms by (simp add: f_def)
  have fS: "f n = Some b \<longleftrightarrow> (\<exists>b'. match rest (drop n query) = Some b' \<and> b = take n query @ b')" for n
    by (auto simp: f_def split: option.splits)
  have fN: "f n = None \<longleftrightarrow> match rest (drop n query) = None" for n
    by (auto simp: f_def split: option.splits)
  show ?thesis
  proof
    assume ?L
    then obtain i where i: "i < length query" "f (Suc i) = Some b"
      "\<forall>j < i. f (Suc j) = None"
      unfolding m first_some_Some_iff
      by (auto simp: nth_upt simp del: upt_Suc)
    from i(2) obtain b' where b': "match rest (drop (Suc i) query) = Some b'"
      "b = take (Suc i) query @ b'" unfolding fS by blast
    have "\<forall>k. 1 \<le> k \<and> k < Suc i \<longrightarrow> match rest (drop k query) = None"
    proof (intro allI impI)
      fix k assume k: "1 \<le> k \<and> k < Suc i"
      then obtain j where "k = Suc j" "j < i" by (cases k) auto
      with i(3) show "match rest (drop k query) = None" by (simp add: fN)
    qed
    with i(1) b' show ?R by (intro exI [of _ "Suc i"] exI [of _ b']) simp
  next
    assume ?R
    then obtain n b' where n: "1 \<le> n" "n \<le> length query"
      "match rest (drop n query) = Some b'" "b = take n query @ b'"
      "\<forall>k. 1 \<le> k \<and> k < n \<longrightarrow> match rest (drop k query) = None" by blast
    from n(1) obtain i where i: "n = Suc i" by (cases n) auto
    have "f (Suc i) = Some b" unfolding fS using n(3,4) i by blast
    moreover have "\<forall>j < i. f (Suc j) = None" using n(5) i by (simp add: fN)
    moreover have "i < length query" using n(2) i by simp
    ultimately show ?L
      unfolding m first_some_Some_iff
      by (intro exI [of _ i]) (auto simp: nth_upt simp del: upt_Suc)
  qed
qed

theorem match_wildcard_shortest_witness:
  "[''born''] \<noteq> ([] :: string list)
   \<and> match (wildcard # [''born'']) [''marie'', ''curie'', ''born''] = Some [''marie'', ''curie'']"
proof -
  have h: "[''born''] \<noteq> ([] :: string list)" by simp
  have k: "1 \<le> k \<and> k < 2 \<longrightarrow> k = Suc 0" for k :: nat by arith
  have "\<exists>n b'. 1 \<le> n \<and> n \<le> length [''marie'', ''curie'', ''born'']
           \<and> match [''born''] (drop n [''marie'', ''curie'', ''born'']) = Some b'
           \<and> [''marie'', ''curie''] = take n [''marie'', ''curie'', ''born''] @ b'
           \<and> (\<forall>k. 1 \<le> k \<and> k < n \<longrightarrow>
                  match [''born''] (drop k [''marie'', ''curie'', ''born'']) = None)"
  proof (intro exI [of _ 2] exI [of _ "[]"] conjI allI impI)
    fix k :: nat
    assume "1 \<le> k \<and> k < 2"
    with k have "k = Suc 0" by blast
    then show "match [''born''] (drop k [''marie'', ''curie'', ''born'']) = None"
      by (simp add: wildcard_def lower_def lower_char_def)
  qed (simp_all add: wildcard_def lower_def lower_char_def numeral_2_eq_2)
  with match_wildcard_shortest [OF h, of "[''marie'', ''curie'', ''born'']" "[''marie'', ''curie'']"] h
  show ?thesis by blast
qed

section \<open>The run monad\<close>

lemma ret_apply: "ret x reqs = (Inr x, reqs)"
  by (simp add: ret_def)

lemma raise_apply: "raise e reqs = (Inl e, reqs)"
  by (simp add: raise_def)


lemma bind_Inr: "m reqs = (Inr x, reqs') \<Longrightarrow> bind m f reqs = f x reqs'"
  by (simp add: bind_def)

section \<open>Properties of the dispatcher\<close>

lemma search_loop_skip:
  "\<forall>(p, a) \<in> set pre. mtch p src = None \<Longrightarrow>
   search_loop mtch (pre @ pal) src = search_loop mtch pal src"
  by (induction pre) auto

text \<open>
  Claim C2.  When no entry before \<open>(pat, act)\<close> matches the query and \<open>pat\<close> matches it with
  binding \<open>mat\<close>, the search runs \<open>act\<close> on \<open>mat\<close> and nothing else: its result and the
  requests it makes are those of \<open>act mat\<close> (with the empty answer replaced), and they are
  the same whatever entries \<open>post\<close> follow, also when their templates match too.
\<close>

theorem search_first_match_wins:
  assumes "\<forall>(p, a) \<in> set pre. mtch p src = None" and "mtch pat src = Some mat"
  shows "search_loop mtch (pre @ (pat, act) # post) src reqs
           = bind (act mat) (\<lambda>answer. ret (if answer \<noteq> [] then answer else [''No answers''])) reqs
         \<and> search_loop mtch (pre @ (pat, act) # post) src reqs
           = search_loop mtch (pre @ [(pat, act)]) src reqs"
  using assms by (simp add: search_loop_skip)

theorem search_first_match_wins_witness:
  "match [''hello''] [''bye''] = None
   \<and> match [''%''] [''bye''] = Some [''bye'']
   \<and> match [''bye''] [''bye''] = Some []
   \<and> search_loop match [([''hello''], bye_action), ([''%''], echo), ([''bye''], bye_action)]
         [''bye''] [] = (Inr [''bye''], [])"
proof -
  have h1: "\<forall>(p, a) \<in> set [([''hello''], bye_action)]. match p [''bye''] = None"
    by (simp add: wildcard_def lower_def lower_char_def)
  have h2: "match [''%''] [''bye''] = Some [''bye'']" by (simp add: wildcard_def)
  have h3: "match [''bye''] [''bye''] = Some []" by (simp add: wildcard_def)
  from search_first_match_wins [where mtch = match and pre = "[([''hello''], bye_action)]"
      and src = "[''bye'']" and pat = "[''%'']" and mat = "[''bye'']" and act = echo
      and post = "[([''bye''], bye_action)]" and reqs = "[]", OF h1 h2]
  have "search_loop match [([''hello''], bye_action), ([''%''], echo), ([''bye''], bye_action)]
         [''bye''] [] = (Inr [''bye''], [])"
    by (simp add: echo_def bind_def ret_def)
  moreover have "match [''hello''] [''bye''] = None"
    by (simp add: wildcard_def lower_def lower_char_def)
  ultimately show ?thesis using h2 h3 by blast
qed

text \<open>
  Claim C4.  When the first matching entry's action returns the list \<open>answer\<close>, the search returns
  \<open>answer\<close> unchanged if it is not empty, and the one-element list \<open>No answers\<close> if it
  is empty.
\<close>

theorem search_answer_normalised:
  assumes "\<forall>(p, a) \<in> set pre. mtch p src = None" and "mtch pat src = Some mat"
    and "act mat reqs = (Inr answer, reqs')"
  shows "(answer \<noteq> [] \<longrightarrow> search_loop mtch (pre @ (pat, act) # post) src reqs = (Inr answer, reqs'))
       \<and> (answer = [] \<longrightarrow> search_loop mtch (pre @ (pat, act) # post) src reqs = (Inr [''No answers''], reqs'))"
  using assms by (simp add: search_loop_skip bind_Inr ret_apply)

theorem search_answer_normalised_witness:
  "match [''hello''] [''bye''] = None
   \<and> match [''%''] [''bye''] = Some [''bye'']
   \<and> silent [''bye''] [] = (Inr [], [])
   \<and> search_loop match [([''hello''], bye_action), ([''%''], silent), ([''bye''], bye_action)]
         [''bye''] [] = (Inr [''No answers''], [])"
proof -
  have h1: "\<forall>(p, a) \<in> set [([''hello''], bye_action)]. match p [''bye''] = None"
    by (simp add: wildcard_def lower_def lower_char_def)
  have h2: "match [''%''] [''bye''] = Some [''bye'']" by (simp add: wildcard_def)
  have h3: "silent [''bye''] [] = (Inr [], [])" by (simp add: silent_def ret_def)
  from search_answer_normalised [where mtch = match and pre = "[([''hello''], bye_action)]"
      and src = "[''bye'']" and pat = "[''%'']" and mat = "[''bye'']" and act = silent
      and post = "[([''bye''], bye_action)]" and reqs = "[]" and answer = "[]" and reqs' = "[]",
      OF h1 h2 h3]
  have "search_loop match [([''hello''], bye_action), ([''%''], silent), ([''bye''], bye_action)]
         [''bye''] [] = (Inr [''No answers''], [])"
    by simp
  moreover have "match [''hello''] [''bye''] = None"
    by (simp add: wildcard_def lower_def lower_char_def)
  ultimately show ?thesis using h2 h3 by blast
qed

text \<open>
  Claim C5.  When no entry's template matches (the matcher returns \<open>None\<close> on each), the search
  returns the one-element list \<open>I don't understand\<close> and makes no request.  An empty
  binding is not "no match": on \<open>Some []\<close> the entry's action is run on the empty
  binding.
\<close>

theorem search_no_match:
  "((\<forall>(p, a) \<in> set pal. mtch p src = None) \<longrightarrow>
      search_loop mtch pal src reqs = (Inr [''I don't understand''], reqs))
   \<and> ((\<forall>(p, a) \<in> set pre. mtch p src = None) \<and> mtch pat src = Some [] \<longrightarrow>
      search_loop mtch (pre @ (pat, act) # post) src reqs
        = bind (act []) (\<lambda>answer. ret (if answer \<noteq> [] then answer else [''No answers''])) reqs)"
proof (intro conjI impI)
  assume "\<forall>(p, a) \<in> set pal. mtch p src = None"
  then show "search_loop mtch pal src reqs = (Inr [''I don't understand''], reqs)"
    by (induction pal) (auto simp: ret_apply)
next
  assume "(\<forall>(p, a) \<in> set pre. mtch p src = None) \<and> mtch pat src = Some []"
  then show "search_loop mtch (pre @ (pat, act) # post) src reqs
        = bind (act []) (\<lambda>answer. ret (if answer \<noteq> [] then answer else [''No answers''])) reqs"
    by (simp add: search_loop_skip)
qed

section \<open>The pattern-action list on concrete queries\<close>

lemma pa_list_patterns:
  "pa_list w =
     [([''when'', ''was'', ''%'', ''born''], birth_date w),
      ([''what'', ''is'', ''the'', ''polar'', ''radius'', ''of'', ''%''], polar_radius w),
      ([''what'', ''is'', ''the'', ''population'', ''of'', ''%''], city_pop w),
      ([''what'', ''are'', ''the'', ''coordinates'', ''of'', ''%''], city_coords w),
      ([''what'', ''country'', ''is'', ''%'', ''in''], city_country w),
      ([''bye''], bye_action)]"
  by (simp add: pa_list_def str_split_def is_space_def)

lemma tokens_bye: "query_tokens ''bye'' = [''bye'']"
  by (simp add: query_tokens_def str_split_def is_space_def lower_def lower_char_def remove_char_def)

lemma tokens_pop: "query_tokens ''what is the population of'' = [''what'', ''is'', ''the'', ''population'', ''of'']"
  by (simp add: query_tokens_def str_split_def is_space_def lower_def lower_char_def remove_char_def)

lemma lower_lits:
  "lower ''bye'' = ''bye''" "lower ''when'' = ''when''" "lower ''what'' = ''what''"
  "lower ''is'' = ''is''" "lower ''the'' = ''the''" "lower ''population'' = ''population''"
  "lower ''of'' = ''of''" "lower ''polar'' = ''polar''" "lower ''are'' = ''are''" "lower ''country'' = ''country''"
  by (simp_all add: lower_def lower_char_def)

lemma search_bye: "search_pa_list w [''bye''] reqs = (Inl KeyboardInterrupt, reqs)"
  by (simp add: search_pa_list_def pa_list_patterns wildcard_def lower_lits bye_action_def
      raise_apply bind_def)

lemma search_pop_empty:
  "search_pa_list w [''what'', ''is'', ''the'', ''population'', ''of''] reqs
     = (Inr [''No city specified''], reqs)"
  by (simp add: search_pa_list_def pa_list_patterns wildcard_def lower_lits city_pop_def
      ret_apply bind_def)

theorem search_no_match_witness:
  "query_tokens ''Hello there?'' = [''hello'', ''there'']
   \<and> search_pa_list world_no_infobox (query_tokens ''Hello there?'') []
       = (Inr [''I don't understand''], [])
   \<and> match [''%''] [] = Some []
   \<and> search_loop match [([''hello''], bye_action), ([''%''], echo)] [] [] = (Inr [''No answers''], [])"
proof -
  have t: "query_tokens ''Hello there?'' = [''hello'', ''there'']" by code_simp
  have h1: "\<forall>(p, a) \<in> set (pa_list world_no_infobox). match p (query_tokens ''Hello there?'') = None"
    unfolding t by (simp add: pa_list_patterns wildcard_def lower_def lower_char_def)
  have h2: "(\<forall>(p, a) \<in> set [([''hello''], bye_action)]. match p [] = None)
            \<and> match [''%''] [] = Some []"
    by (simp add: wildcard_def)
  note inst1 = search_no_match [where mtch = match and pal = "pa_list world_no_infobox"
      and src = "query_tokens ''Hello there?''" and reqs = "[]"]
  note inst2 = search_no_match [where mtch = match and pre = "[([''hello''], bye_action)]"
      and src = "[]" and pat = "[''%'']" and act = echo and post = "[]" and reqs = "[]"]
  from inst1 h1 have a: "search_pa_list world_no_infobox (query_tokens ''Hello there?'') []
       = (Inr [''I don't understand''], [])"
    unfolding search_pa_list_def by blast
  from inst2 h2 have "search_loop match ([([''hello''], bye_action)] @ ([''%''], echo) # []) [] []
       = bind (echo []) (\<lambda>answer. ret (if answer \<noteq> [] then answer else [''No answers''])) []"
    by blast
  then have b: "search_loop match [([''hello''], bye_action), ([''%''], echo)] [] []
       = (Inr [''No answers''], [])"
    by (simp add: echo_def bind_def ret_def)
  from t a h2 b show ?thesis by blast
qed

text \<open>
  Claim C6.  On the input line \<open>bye\<close> the termination action raises \<open>KeyboardInterrupt\<close>
  instead of returning a list, the dispatcher lets it through, and the loop catches it:
  nothing is printed for that query, the rest of the input stays unread, the farewell is
  printed and \<open>query_loop\<close> returns normally.
\<close>

theorem bye_terminates_loop:
  "bye_action dummy reqs = (Inl KeyboardInterrupt, reqs)
   \<and> search_pa_list w (query_tokens ''bye'') reqs = (Inl KeyboardInterrupt, reqs)
   \<and> loop w (''bye'' # rest) out reqs
       = (Inr (), \<lparr>stdin = rest, stdout = out @ [Print [], Prompt ''Your query? ''], requests = reqs\<rparr>)
   \<and> query_loop w (''bye'' # rest)
       = (Inr (), \<lparr>stdin = rest,
                   stdout = [Print (''Welcome to the information database!'' @ [newline]),
                             Print [], Prompt ''Your query? '',
                             Print ([newline] @ ''So long!'' @ [newline])],
                   requests = []\<rparr>)"
  by (simp add: query_loop_def tokens_bye search_bye bye_action_def raise_apply)


subsection \<open>From the failing call to the action\<close>

























subsection \<open>From the action to the dispatcher\<close>


















text \<open>
  Claim C8.  On the input \<open>what is the population of\<close> the wildcard of the population template
  binds the empty list, and the dispatcher answers \<open>No city specified\<close> without any
  request, in every world.  \<open>city_pop\<close> answers so on every binding that is empty or
  whose first token is the empty string.
\<close>

theorem empty_city_guard:
  "match (str_split ''what is the population of %'') (query_tokens ''what is the population of'')
     = Some []
   \<and> search_pa_list w (query_tokens ''what is the population of'') reqs
       = (Inr [''No city specified''], reqs)
   \<and> (matches = [] \<or> (\<exists>ms. matches = [] # ms) \<longrightarrow>
        city_pop w matches reqs = (Inr [''No city specified''], reqs))"
  by (auto simp: tokens_pop search_pop_empty city_pop_def ret_apply str_split_def is_space_def
      wildcard_def lower_lits)

theorem empty_city_guard_witness:
  "city_pop world_no_infobox [[]] [] = (Inr [''No city specified''], [])"
  using empty_city_guard [of world_no_infobox "[]" "[[]]"] by simp

section \<open>The empty-name guard of the getters\<close>

lemma bind_no_ValueError:
  assumes "\<And>r. fst (m r) \<noteq> Inl (ValueError msg)"
    and "\<And>x r. fst (f x r) \<noteq> Inl (ValueError msg)"
  shows "fst (bind m f reqs) \<noteq> Inl (ValueError msg)"
proof (cases "m reqs")
  case (Pair res r')
  show ?thesis
  proof (cases res)
    case (Inl e)
    with Pair assms(1) [of reqs] show ?thesis by (simp add: bind_def)
  next
    case (Inr x)
    with Pair assms(2) [of x r'] show ?thesis by (simp add: bind_def)
  qed
qed

lemma request_no_ValueError: "fst (request r a reqs) \<noteq> Inl (ValueError msg)"
  by (simp add: request_def split: sum.splits)

lemma get_page_html_no_ValueError: "fst (get_page_html w title reqs) \<noteq> Inl (ValueError msg)"
  unfolding get_page_html_def
  by (rule bind_no_ValueError)
     (simp_all add: request_no_ValueError raise_apply split: list.splits)

lemma get_first_infobox_text_no_ValueError:
  "fst (get_first_infobox_text w html reqs) \<noteq> Inl (ValueError msg)"
  by (simp add: get_first_infobox_text_def raise_apply ret_apply split: list.splits)

lemma get_match_no_ValueError:
  "fst (get_match w text pattern error_text reqs) \<noteq> Inl (ValueError msg)"
  by (simp add: get_match_def raise_apply ret_apply split: option.splits)

lemma infobox_text_no_ValueError: "fst (infobox_text w name reqs) \<noteq> Inl (ValueError msg)"
  unfolding infobox_text_def
  by (intro bind_no_ValueError get_page_html_no_ValueError get_first_infobox_text_no_ValueError)
     (simp add: ret_apply)

lemma lookup_no_ValueError:
  "fst (bind (infobox_text w name) (\<lambda>text.
        bind (get_match w text pattern error_text) (\<lambda>m. ret (m key))) reqs)
     \<noteq> Inl (ValueError msg)"
  by (intro bind_no_ValueError infobox_text_no_ValueError get_match_no_ValueError)
     (simp add: ret_apply)

lemma get_city_pop_ValueError:
  "name \<noteq> [] \<Longrightarrow> fst (get_city_pop w name reqs) \<noteq> Inl (ValueError msg)"
  by (simp add: get_city_pop_def lookup_no_ValueError)

lemma get_city_coords_ValueError:
  "name \<noteq> [] \<Longrightarrow> fst (get_city_coords w name reqs) \<noteq> Inl (ValueError msg)"
  by (simp add: get_city_coords_def lookup_no_ValueError)

lemma get_city_country_ValueError:
  "name \<noteq> [] \<Longrightarrow> fst (get_city_country w name reqs) \<noteq> Inl (ValueError msg)"
  by (simp add: get_city_country_def lookup_no_ValueError)

lemma singleton_no_ValueError:
  assumes "\<And>r. fst (m r) \<noteq> Inl (ValueError msg)"
  shows "fst (bind m (\<lambda>r. ret [r]) reqs) \<noteq> Inl (ValueError msg)"
  using assms by (intro bind_no_ValueError) (simp_all add: ret_apply)

text \<open>
  Claim C10.  The getters raise \<open>ValueError\<close> on the empty name, and the three city actions never
  end with a \<open>ValueError\<close>, whatever the binding and the world: they call the getter only
  with a non-empty first token.
\<close>

theorem city_actions_never_ValueError:
  "get_city_pop w [] reqs = (Inl (ValueError ''City name must be provided''), reqs)
   \<and> get_city_coords w [] reqs = (Inl (ValueError ''City name must be provided''), reqs)
   \<and> get_city_country w [] reqs = (Inl (ValueError ''City name must be provided''), reqs)
   \<and> fst (city_pop w matches reqs) \<noteq> Inl (ValueError msg)
   \<and> fst (city_coords w matches reqs) \<noteq> Inl (ValueError msg)
   \<and> fst (city_country w matches reqs) \<noteq> Inl (ValueError msg)"
proof (intro conjI)
  show "fst (city_pop w matches reqs) \<noteq> Inl (ValueError msg)"
    unfolding city_pop_def
    by (auto simp: ret_apply split: list.splits
        intro!: singleton_no_ValueError get_city_pop_ValueError)
  show "fst (city_coords w matches reqs) \<noteq> Inl (ValueError msg)"
    unfolding city_coords_def
    by (auto simp: ret_apply split: list.splits
        intro!: singleton_no_ValueError get_city_coords_ValueError)
  show "fst (city_country w matches reqs) \<noteq> Inl (ValueError msg)"
    unfolding city_country_def
    by (auto simp: ret_apply split: list.splits
        intro!: singleton_no_ValueError get_city_country_ValueError)
qed (simp_all add: get_city_pop_def get_city_coords_def get_city_country_def raise_apply)

section \<open>Tokenization\<close>

lemma lower_char_qmark: "lower_char c = CHR ''?'' \<longleftrightarrow> c = CHR ''?''"
proof
  assume h: "lower_char c = CHR ''?''"
  show "c = CHR ''?''"
  proof (rule ccontr)
    assume n: "c \<noteq> CHR ''?''"
    define k where "k = (of_char c :: nat)"
    from h n have up: "(65 \<le> k \<and> k \<le> 90) \<or> (192 \<le> k \<and> k \<le> 222 \<and> k \<noteq> 215)"
      and eq: "char_of (k + 32) = CHR ''?''"
      by (auto simp: lower_char_def k_def Let_def split: if_splits)
    from eq have "of_char (char_of (k + 32)) = (of_char (CHR ''?'') :: nat)" by simp
    then have "(k + 32) mod 256 = 63" by simp
    with up show False by auto
  qed
next
  assume "c = CHR ''?''"
  then show "lower_char c = CHR ''?''" by (simp add: lower_char_def)
qed

lemma split_acc_chars:
  "tok \<in> set (split_acc cur s) \<Longrightarrow> set tok \<subseteq> set cur \<union> set s"
proof (induction s arbitrary: cur)
  case Nil
  then show ?case by (auto split: if_splits)
next
  case (Cons c cs)
  show ?case
  proof (cases "is_space c")
    case True
    with Cons.prems have "tok = cur \<or> tok \<in> set (split_acc [] cs)"
      by (auto split: if_splits)
    then show ?thesis
    proof
      assume "tok = cur" then show ?thesis by auto
    next
      assume "tok \<in> set (split_acc [] cs)"
      from Cons.IH [OF this] show ?thesis by auto
    qed
  next
    case False
    with Cons.prems have "tok \<in> set (split_acc (cur @ [c]) cs)" by simp
    from Cons.IH [OF this] show ?thesis by auto
  qed
qed

lemma remove_only_trailing:
  "CHR ''?'' \<notin> set (butlast line) \<Longrightarrow> remove_char (CHR ''?'') line = strip_trailing_qmark line"
proof (induction line rule: rev_induct)
  case Nil
  show ?case by (simp add: remove_char_def strip_trailing_qmark_def)
next
  case (snoc x xs)
  then have "CHR ''?'' \<notin> set xs" by simp
  then have "filter (\<lambda>c. c \<noteq> CHR ''?'') xs = xs" by (induction xs) auto
  then show ?case by (simp add: remove_char_def strip_trailing_qmark_def)
qed

lemma query_tokens_a_b: "query_tokens ''a?b'' = [''ab'']"
  by (simp add: query_tokens_def remove_char_def lower_def lower_char_def str_split_def
      is_space_def)

lemma spec_tokens_a_b: "spec_tokens ''a?b'' = [''a?b'']"
  by (simp add: spec_tokens_def strip_trailing_qmark_def lower_def lower_char_def
      str_split_def is_space_def)

text \<open>
  The line \<open>a?b\<close>: the loop removes the inner question mark, stripping a trailing one
  keeps it.
\<close>

theorem query_tokens_counterexample:
  "query_tokens ''a?b'' = [''ab''] \<and> spec_tokens ''a?b'' = [''a?b'']"
  using query_tokens_a_b spec_tokens_a_b by (rule conjI)

lemma lower_no_qmark:
  assumes "CHR ''?'' \<in> set (lower s)"
  shows "CHR ''?'' \<in> set s"
proof -
  from assms have "CHR ''?'' \<in> lower_char ` set s" unfolding lower_def set_map .
  then obtain x where x: "x \<in> set s" "CHR ''?'' = lower_char x" by (rule imageE)
  from x(2) have "lower_char x = CHR ''?''" by (rule sym)
  then have "x = CHR ''?''" by (rule iffD1 [OF lower_char_qmark])
  with x(1) show ?thesis by blast
qed

lemma remove_char_absent: "c \<notin> set (remove_char c s)"
  unfolding remove_char_def by (induction s) simp_all

lemma query_tokens_no_qmark:
  assumes "tok \<in> set (query_tokens line)"
  shows "CHR ''?'' \<notin> set tok"
proof
  assume q: "CHR ''?'' \<in> set tok"
  from assms have "tok \<in> set (split_acc [] (lower (remove_char (CHR ''?'') line)))"
    by (simp add: query_tokens_def str_split_def)
  from split_acc_chars [OF this]
  have "set tok \<subseteq> set (lower (remove_char (CHR ''?'') line))" by simp
  from subsetD [OF this q]
  have "CHR ''?'' \<in> set (remove_char (CHR ''?'') line)" by (rule lower_no_qmark)
  then show False by (simp add: remove_char_absent)
qed

text \<open>
  Claim C3.  The tokens of a line are those of the line without any of its question marks,
  lowercased and split on whitespace: no token contains a question mark.  On a line with
  no question mark before its last character this is the tokenization that strips a
  trailing question mark.
\<close>

theorem query_tokens_removes_every_qmark:
  "query_tokens line = str_split (lower (filter (\<lambda>c. c \<noteq> CHR ''?'') line))
   \<and> list_all (\<lambda>tok. CHR ''?'' \<notin> set tok) (query_tokens line)
   \<and> (CHR ''?'' \<notin> set (butlast line) \<longrightarrow> query_tokens line = spec_tokens line)"
proof (intro conjI impI)
  show "query_tokens line = str_split (lower (filter (\<lambda>c. c \<noteq> CHR ''?'') line))"
    by (simp add: query_tokens_def remove_char_def)
next
  show "list_all (\<lambda>tok. CHR ''?'' \<notin> set tok) (query_tokens line)"
    unfolding list_all_iff using query_tokens_no_qmark by blast
next
  assume "CHR ''?'' \<notin> set (butlast line)"
  then have "remove_char (CHR ''?'') line = strip_trailing_qmark line"
    by (rule remove_only_trailing)
  then show "query_tokens line = spec_tokens line"
    by (simp add: query_tokens_def spec_tokens_def)
qed

theorem query_tokens_removes_every_qmark_witness:
  "CHR ''?'' \<notin> set (butlast ''When was Marie Curie born?'')
   \<and> query_tokens ''When was Marie Curie born?'' = spec_tokens ''When was Marie Curie born?''
   \<and> spec_tokens ''When was Marie Curie born?'' = [''when'', ''was'', ''marie'', ''curie'', ''born'']"
proof -
  have h: "CHR ''?'' \<notin> set (butlast ''When was Marie Curie born?'')" by simp
  have "spec_tokens ''When was Marie Curie born?'' = [''when'', ''was'', ''marie'', ''curie'', ''born'']"
    by code_simp
  with h query_tokens_removes_every_qmark [of "''When was Marie Curie born?''"]
  show ?thesis by blast
qed

end
